theory Spec2Isabelle
  imports Complex_Main
begin

section \<open>Arrays of 3-vectors\<close>

text \<open>
  The program keeps its particles in numpy arrays of 64-bit floats. The arrays are
  modelled as lists and the floats as real numbers: rounding, infinities and NaN are
  outside the model, everything else (shapes, masks, the order of the statements, the
  operations that can raise) is written out.
\<close>

type_synonym vec3 = "real \<times> real \<times> real"

fun vadd :: "vec3 \<Rightarrow> vec3 \<Rightarrow> vec3" where
  "vadd (a, b, c) (d, e, f) = (a + d, b + e, c + f)"

fun vsub :: "vec3 \<Rightarrow> vec3 \<Rightarrow> vec3" where
  "vsub (a, b, c) (d, e, f) = (a - d, b - e, c - f)"

fun vscale :: "real \<Rightarrow> vec3 \<Rightarrow> vec3" where
  "vscale s (a, b, c) = (s * a, s * b, s * c)"

fun vdiv :: "vec3 \<Rightarrow> real \<Rightarrow> vec3" where
  "vdiv (a, b, c) s = (a / s, b / s, c / s)"

text \<open>\<^verbatim>\<open>np.linalg.norm(v)\<close> of one row: the Euclidean length.\<close>

definition norm3 :: "vec3 \<Rightarrow> real" where
  "norm3 v = (case v of (a, b, c) \<Rightarrow> sqrt (a * a + b * b + c * c))"

text \<open>What numpy raises on arrays whose shapes do not fit.\<close>

datatype error = ValueError | IndexError

text \<open>
  \<^verbatim>\<open>xs + ys\<close> on arrays of shape (N, 3) and (M, 3): elementwise when N = M, a single
  row is broadcast over the other array, anything else raises ValueError.
\<close>

definition add_rows :: "vec3 list \<Rightarrow> vec3 list \<Rightarrow> error + vec3 list" where
  "add_rows xs ys =
     (if length xs = length ys then Inr (map2 vadd xs ys)
      else if length xs = 1 then Inr (map (vadd (hd xs)) ys)
      else if length ys = 1 then Inr (map (\<lambda>x. vadd x (hd ys)) xs)
      else Inl ValueError)"

text \<open>
  \<^verbatim>\<open>xs[mask]\<close> with a boolean mask: the entries where the mask is true, in order;
  IndexError when the mask is not as long as the array.
\<close>

definition mask_select :: "'a list \<Rightarrow> bool list \<Rightarrow> error + 'a list" where
  "mask_select xs bs =
     (if length bs \<noteq> length xs then Inl IndexError
      else Inr (map fst (filter snd (zip xs bs))))"

text \<open>
  \<^verbatim>\<open>xs[mask] = vals\<close>: the entries where the mask is true are replaced, in order, by the
  rows of \<open>vals\<close>; a single row is broadcast; IndexError when the mask is not as long
  as the array, ValueError when the number of rows does not fit.
\<close>

fun put_mask :: "'a list \<Rightarrow> bool list \<Rightarrow> 'a list \<Rightarrow> 'a list" where
  "put_mask (x # xs) (True # ms) (v # vs) = v # put_mask xs ms vs"
| "put_mask (x # xs) (False # ms) vs = x # put_mask xs ms vs"
| "put_mask xs ms vs = xs"

definition mask_assign :: "'a list \<Rightarrow> bool list \<Rightarrow> 'a list \<Rightarrow> error + 'a list" where
  "mask_assign xs bs vals =
     (let k = length (filter (\<lambda>b. b) bs) in
      if length bs \<noteq> length xs then Inl IndexError
      else if length vals = k then Inr (put_mask xs bs vals)
      else if length vals = 1 then Inr (put_mask xs bs (replicate k (hd vals)))
      else Inl ValueError)"

text \<open>
  \<^verbatim>\<open>a[i]\<close> for a Python integer \<open>i\<close>: negative indices count from the end, anything
  out of range raises IndexError.
\<close>

definition item :: "'a list \<Rightarrow> int \<Rightarrow> error + 'a" where
  "item xs i =
     (if 0 \<le> i \<and> i < int (length xs) then Inr (xs ! nat i)
      else if i < 0 \<and> - int (length xs) \<le> i then Inr (xs ! nat (int (length xs) + i))
      else Inl IndexError)"

text \<open>\<^verbatim>\<open>np.linspace(start, stop, num, endpoint=False)\<close>.\<close>

definition linspace :: "real \<Rightarrow> real \<Rightarrow> nat \<Rightarrow> real list" where
  "linspace start stop num =
     map (\<lambda>i. start + real i * ((stop - start) / real num)) [0..<num]"

section \<open>Configuration\<close>

definition red_radius :: real where "red_radius = 12 / 10"
definition blue_radius :: real where "blue_radius = 3"
definition orbit_period :: int where "orbit_period = 120"
definition red_circ :: real where "red_circ = 2 * pi * red_radius"
definition red_speed :: real where "red_speed = red_circ / real_of_int orbit_period"
definition center :: vec3 where "center = (0, 0, 0)"
definition particles_frame :: int where "particles_frame = 400"
definition wind_speed :: real where "wind_speed = red_speed"
definition theta :: "real list" where "theta = linspace 0 (2 * pi) (nat orbit_period)"
definition absorption_radius :: real where "absorption_radius = 25 / 10"
definition absorption_speed :: real where "absorption_speed = 5 / 100"

section \<open>The particle store and the random generator\<close>

text \<open>
  The global dictionary \<^verbatim>\<open>particles\<close> has the three keys \<^verbatim>\<open>'pos'\<close>, \<^verbatim>\<open>'vel'\<close>
  and \<^verbatim>\<open>'age'\<close>; an assignment to a key is a record update.
\<close>

record particles =
  pos :: "vec3 list"
  vel :: "vec3 list"
  age :: "real list"

definition initial_particles :: particles where
  "initial_particles = \<lparr>pos = [], vel = [], age = []\<rparr>"

text \<open>
  The state of \<^verbatim>\<open>np.random\<close> is the sequence of unit draws it will still produce.
  \<^verbatim>\<open>np.random.uniform(low, high, n)\<close> consumes \<open>n\<close> of them and returns
  \<open>low + (high - low) * u\<close> for each.
\<close>

type_synonym rng = "nat \<Rightarrow> real"

definition uniform :: "real \<Rightarrow> real \<Rightarrow> nat \<Rightarrow> rng \<Rightarrow> real list \<times> rng" where
  "uniform low high n g =
     (map (\<lambda>i. low + (high - low) * g i) [0..<n], \<lambda>i. g (i + n))"

text \<open>\<^verbatim>\<open>np.stack([xs, ys, zs], axis=1)\<close> on three arrays of one length.\<close>

definition stack3 :: "real list \<Rightarrow> real list \<Rightarrow> real list \<Rightarrow> vec3 list" where
  "stack3 xs ys zs = zip xs (zip ys zs)"

section \<open>emit_particles\<close>

definition emit_particles ::
  "real \<Rightarrow> real \<Rightarrow> real \<Rightarrow> int \<Rightarrow> real \<Rightarrow> particles \<times> rng \<Rightarrow> particles \<times> rng" where
  "emit_particles x y z n radius S =
     (case S of (P, g) \<Rightarrow>
      if n \<le> 0 then (P, g)
      else
        (case uniform 0 (2 * pi) (nat n) g of (azimuthal_angles, g1) \<Rightarrow>
         (case uniform (- 1) 1 (nat n) g1 of (us, g2) \<Rightarrow>
         let polar_angles = map arccos us;
             vx = map2 (\<lambda>a p. cos a * sin p * wind_speed) azimuthal_angles polar_angles;
             vy = map2 (\<lambda>a p. sin a * sin p * wind_speed) azimuthal_angles polar_angles;
             vz = map (\<lambda>p. cos p * wind_speed) polar_angles;
             new_pos_x = map2 (\<lambda>a p. x + radius * cos a * sin p) azimuthal_angles polar_angles;
             new_pos_y = map2 (\<lambda>a p. y + radius * sin a * sin p) azimuthal_angles polar_angles;
             new_pos_z = map (\<lambda>p. z + radius * cos p) polar_angles;
             new_pos = stack3 new_pos_x new_pos_y new_pos_z;
             new_vel = stack3 vx vy vz;
             new_age = replicate (nat n) 0
         in (\<lparr>pos = pos P @ new_pos, vel = vel P @ new_vel, age = age P @ new_age\<rparr>, g2))))"

section \<open>update_particles\<close>

text \<open>Lines 88 and 89: move and age.\<close>

definition move_and_age :: "particles \<Rightarrow> error + particles" where
  "move_and_age P =
     (case add_rows (pos P) (vel P) of
        Inl e \<Rightarrow> Inl e
      | Inr pos1 \<Rightarrow> Inr (P\<lparr>pos := pos1, age := map (\<lambda>a. a + 1) (age P)\<rparr>))"

text \<open>Lines 98 to 100: the lengths of the direction vectors, a zero length replaced by one.\<close>

definition safe_norms :: "vec3 list \<Rightarrow> real list" where
  "safe_norms direction_to_blue =
     (let norms = map norm3 direction_to_blue
      in map (\<lambda>n. if n = 0 then 1 else n) norms)"

text \<open>Lines 97 to 102: the new velocities of the rows selected by \<^verbatim>\<open>close_mask\<close>.\<close>

definition absorption_force :: "vec3 \<Rightarrow> vec3 list \<Rightarrow> vec3 list" where
  "absorption_force blue_pos close_pos =
     (let direction_to_blue = map (\<lambda>q. vsub blue_pos q) close_pos;
          norms = safe_norms direction_to_blue;
          normalized_direction = map2 vdiv direction_to_blue norms
      in map (vscale absorption_speed) normalized_direction)"

text \<open>Lines 95 to 103: the velocities of the particles close to the blue object are overwritten.\<close>

definition redirect :: "vec3 \<Rightarrow> real list \<Rightarrow> particles \<Rightarrow> error + particles" where
  "redirect blue_pos distances P =
     (let close_mask = map (\<lambda>d. d < absorption_radius) distances in
      if list_ex (\<lambda>b. b) close_mask then
        (case mask_select (pos P) close_mask of
           Inl e \<Rightarrow> Inl e
         | Inr close_pos \<Rightarrow>
             (case mask_assign (vel P) close_mask (absorption_force blue_pos close_pos) of
                Inl e \<Rightarrow> Inl e
              | Inr vel1 \<Rightarrow> Inr (P\<lparr>vel := vel1\<rparr>)))
      else Inr P)"

text \<open>Lines 106 to 110: the particles very close to the blue object are dropped.\<close>

definition remove_absorbed :: "real list \<Rightarrow> particles \<Rightarrow> error + particles" where
  "remove_absorbed distances P =
     (let absorbed_mask = map (\<lambda>d. d < 1 / 10) distances;
          alive_mask = map Not absorbed_mask
      in case mask_select (pos P) alive_mask of
           Inl e \<Rightarrow> Inl e
         | Inr pos2 \<Rightarrow>
             (case mask_select (vel P) alive_mask of
                Inl e \<Rightarrow> Inl e
              | Inr vel2 \<Rightarrow>
                  (case mask_select (age P) alive_mask of
                     Inl e \<Rightarrow> Inl e
                   | Inr age2 \<Rightarrow> Inr (P\<lparr>pos := pos2, vel := vel2, age := age2\<rparr>))))"

text \<open>Line 92: the distances of all particles to the blue object.\<close>

definition distances_to :: "vec3 \<Rightarrow> particles \<Rightarrow> real list" where
  "distances_to blue_pos P = map (\<lambda>q. norm3 (vsub q blue_pos)) (pos P)"

definition update_particles :: "vec3 \<Rightarrow> particles \<Rightarrow> error + particles" where
  "update_particles blue_pos P =
     (if length (pos P) = 0 then Inr P
      else
        (case move_and_age P of
           Inl e \<Rightarrow> Inl e
         | Inr P1 \<Rightarrow>
             (let distances = distances_to blue_pos P1 in
              case redirect blue_pos distances P1 of
                Inl e \<Rightarrow> Inl e
              | Inr P2 \<Rightarrow> remove_absorbed distances P2)))"

section \<open>update_frames\<close>

text \<open>Lines 118 to 129: the positions of the red and of the blue object at a frame.\<close>

definition orbit_positions :: "int \<Rightarrow> error + vec3 \<times> vec3" where
  "orbit_positions frame =
     (let frame_idx = frame mod orbit_period in
      case item theta frame_idx of
        Inl e \<Rightarrow> Inl e
      | Inr th \<Rightarrow>
          (case center of (c0, c1, c2) \<Rightarrow>
             Inr ((c0 + red_radius * cos th, c1 + red_radius * sin th, c2),
                  (c0 + blue_radius * cos (th + pi), c1 + blue_radius * sin (th + pi), c2))))"

text \<open>
  The drawing calls of \<^verbatim>\<open>update_frames\<close> read the state and do not change it; what
  is kept here is what they are given: both positions and the particles.
\<close>

definition update_frames ::
  "int \<Rightarrow> particles \<times> rng \<Rightarrow> error + vec3 \<times> vec3 \<times> particles \<times> rng" where
  "update_frames frame S =
     (case orbit_positions frame of
        Inl e \<Rightarrow> Inl e
      | Inr (red, blue_pos) \<Rightarrow>
          (case red of (x_red, y_red, z_red) \<Rightarrow>
           (case emit_particles x_red y_red z_red particles_frame red_radius S of (P1, g1) \<Rightarrow>
            (case update_particles blue_pos P1 of
               Inl e \<Rightarrow> Inl e
             | Inr P2 \<Rightarrow> Inr (red, blue_pos, P2, g1)))))"

section \<open>Sequences of calls\<close>

datatype call = Emit real real real int real | Advance vec3 | Frame int

fun step :: "call \<Rightarrow> particles \<times> rng \<Rightarrow> error + particles \<times> rng" where
  "step (Emit x y z n radius) S = Inr (emit_particles x y z n radius S)"
| "step (Advance blue_pos) (P, g) =
     (case update_particles blue_pos P of Inl e \<Rightarrow> Inl e | Inr P' \<Rightarrow> Inr (P', g))"
| "step (Frame frame) S =
     (case update_frames frame S of Inl e \<Rightarrow> Inl e | Inr (r, b, P', g') \<Rightarrow> Inr (P', g'))"

fun run :: "call list \<Rightarrow> particles \<times> rng \<Rightarrow> error + particles \<times> rng" where
  "run [] S = Inr S"
| "run (c # cs) S = (case step c S of Inl e \<Rightarrow> Inl e | Inr S' \<Rightarrow> run cs S')"

definition parallel :: "particles \<Rightarrow> bool" where
  "parallel P \<longleftrightarrow> length (pos P) = length (vel P) \<and> length (vel P) = length (age P)"

section \<open>Lemmas: masks and the three steps of update_particles\<close>

lemma add_rows_same: "length xs = length ys \<Longrightarrow> add_rows xs ys = Inr (map2 vadd xs ys)"
  by (simp add: add_rows_def)

lemma select_filter: "map fst (filter snd (zip xs (map c xs))) = filter c xs"
  by (induction xs) auto

lemma select_zip:
  "length ys = length xs \<Longrightarrow>
   map fst (filter snd (zip ys (map c xs))) = map snd (filter (\<lambda>(x, y). c x) (zip xs ys))"
  by (induction xs ys rule: list_induct2') auto

lemma put_mask_map:
  "length vs = length qs \<Longrightarrow>
   put_mask vs (map c qs) (map F (filter c qs)) = map2 (\<lambda>q v. if c q then F q else v) qs vs"
  by (induction qs vs rule: list_induct2') auto

lemma mask_assign_map:
  "length vs = length qs \<Longrightarrow>
   mask_assign vs (map c qs) (map F (filter c qs)) = Inr (map2 (\<lambda>q v. if c q then F q else v) qs vs)"
  by (simp add: mask_assign_def Let_def filter_map comp_def put_mask_map)

lemma absorption_force_map:
  "absorption_force b qs =
     map (\<lambda>q. vscale absorption_speed
            (vdiv (vsub b q) (if norm3 (vsub b q) = 0 then 1 else norm3 (vsub b q)))) qs"
  by (induction qs) (simp_all add: absorption_force_def safe_norms_def Let_def)

lemma no_close_map:
  "length vs = length qs \<Longrightarrow> \<not> list_ex (\<lambda>b. b) (map c qs) \<Longrightarrow>
   map2 (\<lambda>q v. if c q then F q else v) qs vs = vs"
  by (induction qs vs rule: list_induct2') (auto simp: list_ex_iff)

lemma move_and_age_parallel:
  "length (vel P) = length (pos P) \<Longrightarrow>
   move_and_age P = Inr (P\<lparr>pos := map2 vadd (pos P) (vel P), age := map (\<lambda>a. a + 1) (age P)\<rparr>)"
  by (simp add: move_and_age_def add_rows_same)

lemma mask_select_map:
  "mask_select qs (map c qs) = Inr (filter c qs)"
  by (simp add: mask_select_def select_filter)

lemma mask_select_zip:
  "length ys = length qs \<Longrightarrow>
   mask_select ys (map c qs) = Inr (map snd (filter (\<lambda>(q, y). c q) (zip qs ys)))"
  by (simp add: mask_select_def select_zip)

lemma redirect_parallel:
  assumes "length (vel P) = length (pos P)"
  shows "redirect b (distances_to b P) P =
     Inr (P\<lparr>vel := map2 (\<lambda>q v. if norm3 (vsub q b) < absorption_radius
                 then vscale absorption_speed
                        (vdiv (vsub b q) (if norm3 (vsub b q) = 0 then 1 else norm3 (vsub b q)))
                 else v) (pos P) (vel P)\<rparr>)"
proof -
  let ?c = "\<lambda>q. norm3 (vsub q b) < absorption_radius"
  have m: "map (\<lambda>d. d < absorption_radius) (distances_to b P) = map ?c (pos P)"
    by (simp add: distances_to_def)
  show ?thesis
  proof (cases "list_ex (\<lambda>b. b) (map ?c (pos P))")
    case True
    then show ?thesis
      using assms
      by (simp add: redirect_def m mask_select_map absorption_force_map mask_assign_map)
  next
    case False
    then show ?thesis
      using assms no_close_map [of "vel P" "pos P" ?c]
      by (simp add: redirect_def m)
  qed
qed

lemma remove_absorbed_parallel:
  assumes "length (vel P) = length (pos P)" "length (age P) = length (pos P)"
  shows "remove_absorbed (distances_to b P) P =
     Inr (P\<lparr>pos := filter (\<lambda>q. \<not> norm3 (vsub q b) < 1 / 10) (pos P),
            vel := map snd (filter (\<lambda>(q, v). \<not> norm3 (vsub q b) < 1 / 10) (zip (pos P) (vel P))),
            age := map snd (filter (\<lambda>(q, a). \<not> norm3 (vsub q b) < 1 / 10) (zip (pos P) (age P)))\<rparr>)"
proof -
  let ?c = "\<lambda>q. \<not> norm3 (vsub q b) < 1 / 10"
  have m: "map Not (map (\<lambda>d. d < 1 / 10) (distances_to b P)) = map ?c (pos P)"
    by (simp add: distances_to_def)
  show ?thesis
    unfolding remove_absorbed_def Let_def m
    using assms by (simp only: mask_select_map mask_select_zip sum.case)
qed

lemma length_filter_zip:
  "length ys = length qs \<Longrightarrow>
   length (filter (\<lambda>(q, y). c q) (zip qs ys)) = length (filter c qs)"
  by (induction qs ys rule: list_induct2') auto

lemma distances_to_pos: "pos Q = pos P \<Longrightarrow> distances_to b Q = distances_to b P"
  by (simp add: distances_to_def)

lemma update_particles_empty: "pos P = [] \<Longrightarrow> update_particles b P = Inr P"
  by (simp add: update_particles_def)

lemma update_particles_steps:
  assumes "parallel P" and "pos P \<noteq> []"
  shows "\<exists>P1 P2 P'.
     move_and_age P = Inr P1 \<and>
     redirect b (distances_to b P1) P1 = Inr P2 \<and>
     remove_absorbed (distances_to b P1) P2 = Inr P' \<and>
     update_particles b P = Inr P' \<and>
     pos P1 = map2 vadd (pos P) (vel P) \<and> vel P1 = vel P \<and>
     age P1 = map (\<lambda>a. a + 1) (age P) \<and>
     pos P2 = pos P1 \<and> age P2 = age P1 \<and>
     vel P2 = map2 (\<lambda>q v. if norm3 (vsub q b) < absorption_radius
                 then vscale absorption_speed
                        (vdiv (vsub b q) (if norm3 (vsub b q) = 0 then 1 else norm3 (vsub b q)))
                 else v) (pos P1) (vel P) \<and>
     pos P' = filter (\<lambda>q. \<not> norm3 (vsub q b) < 1 / 10) (pos P1) \<and>
     vel P' = map snd (filter (\<lambda>(q, v). \<not> norm3 (vsub q b) < 1 / 10) (zip (pos P1) (vel P2))) \<and>
     age P' = map snd (filter (\<lambda>(q, a). \<not> norm3 (vsub q b) < 1 / 10) (zip (pos P1) (age P1)))"
proof -
  from assms(1) have l: "length (vel P) = length (pos P)" "length (age P) = length (pos P)"
    by (simp_all add: parallel_def)
  define P1 where "P1 = P\<lparr>pos := map2 vadd (pos P) (vel P), age := map (\<lambda>a. a + 1) (age P)\<rparr>"
  define P2 where "P2 = P1\<lparr>vel := map2 (\<lambda>q v. if norm3 (vsub q b) < absorption_radius
                 then vscale absorption_speed
                        (vdiv (vsub b q) (if norm3 (vsub b q) = 0 then 1 else norm3 (vsub b q)))
                 else v) (pos P1) (vel P1)\<rparr>"
  define P' where "P' = P2\<lparr>pos := filter (\<lambda>q. \<not> norm3 (vsub q b) < 1 / 10) (pos P2),
            vel := map snd (filter (\<lambda>(q, v). \<not> norm3 (vsub q b) < 1 / 10) (zip (pos P2) (vel P2))),
            age := map snd (filter (\<lambda>(q, a). \<not> norm3 (vsub q b) < 1 / 10) (zip (pos P2) (age P2)))\<rparr>"
  have s1: "move_and_age P = Inr P1"
    using l by (simp add: move_and_age_parallel P1_def)
  have l1: "length (vel P1) = length (pos P1)" "length (age P1) = length (pos P1)"
    using l by (simp_all add: P1_def)
  have s2: "redirect b (distances_to b P1) P1 = Inr P2"
    unfolding P2_def using l1(1) by (rule redirect_parallel)
  have p2: "pos P2 = pos P1" "age P2 = age P1"
    by (simp_all add: P2_def)
  have l2: "length (vel P2) = length (pos P2)" "length (age P2) = length (pos P2)"
    using l1 by (simp_all add: P2_def)
  have "remove_absorbed (distances_to b P2) P2 = Inr P'"
    unfolding P'_def using l2 by (rule remove_absorbed_parallel)
  then have s3: "remove_absorbed (distances_to b P1) P2 = Inr P'"
    by (simp add: distances_to_pos [OF p2(1)])
  have u: "update_particles b P = Inr P'"
    using assms(2) by (simp add: update_particles_def s1 s2 s3)
  have v1: "vel P1 = vel P" "pos P1 = map2 vadd (pos P) (vel P)" "age P1 = map (\<lambda>a. a + 1) (age P)"
    by (simp_all add: P1_def)
  have v2: "vel P2 = map2 (\<lambda>q v. if norm3 (vsub q b) < absorption_radius
                 then vscale absorption_speed
                        (vdiv (vsub b q) (if norm3 (vsub b q) = 0 then 1 else norm3 (vsub b q)))
                 else v) (pos P1) (vel P)"
    by (simp add: P2_def v1(1))
  have r: "pos P' = filter (\<lambda>q. \<not> norm3 (vsub q b) < 1 / 10) (pos P1)"
    "vel P' = map snd (filter (\<lambda>(q, v). \<not> norm3 (vsub q b) < 1 / 10) (zip (pos P1) (vel P2)))"
    "age P' = map snd (filter (\<lambda>(q, a). \<not> norm3 (vsub q b) < 1 / 10) (zip (pos P1) (age P1)))"
    by (simp_all add: P'_def p2)
  from s1 s2 s3 u v1 p2 v2 r show ?thesis by blast
qed

lemma update_particles_parallel:
  assumes "parallel P"
  shows "\<exists>P'. update_particles b P = Inr P' \<and> parallel P'"
proof (cases "pos P = []")
  case True
  with assms show ?thesis by (simp add: update_particles_empty)
next
  case False
  from update_particles_steps [OF assms False, of b] obtain P1 P2 P' :: particles where
    u: "update_particles b P = Inr P'"
    and p1: "pos P1 = map2 vadd (pos P) (vel P)" "age P1 = map (\<lambda>a. a + 1) (age P)"
    and v2: "vel P2 = map2 (\<lambda>q v. if norm3 (vsub q b) < absorption_radius
                 then vscale absorption_speed
                        (vdiv (vsub b q) (if norm3 (vsub b q) = 0 then 1 else norm3 (vsub b q)))
                 else v) (pos P1) (vel P)"
    and r: "pos P' = filter (\<lambda>q. \<not> norm3 (vsub q b) < 1 / 10) (pos P1)"
    "vel P' = map snd (filter (\<lambda>(q, v). \<not> norm3 (vsub q b) < 1 / 10) (zip (pos P1) (vel P2)))"
    "age P' = map snd (filter (\<lambda>(q, a). \<not> norm3 (vsub q b) < 1 / 10) (zip (pos P1) (age P1)))"
    by blast
  from assms have l: "length (vel P) = length (pos P)" "length (age P) = length (pos P)"
    by (simp_all add: parallel_def)
  have "length (vel P2) = length (pos P1)" "length (age P1) = length (pos P1)"
    using l by (simp_all add: v2 p1)
  then have "parallel P'"
    unfolding parallel_def r by (simp only: length_map length_filter_zip)
  with u show ?thesis by blast
qed

section \<open>Lemmas: emit_particles\<close>

lemma zip_map_upt: "zip (map f [0..<k]) (map h [0..<k]) = map (\<lambda>i. (f i, h i)) [0..<k]"
  by (simp add: zip_map_map zip_same_conv_map)

lemma emit_particles_skip: "n \<le> 0 \<Longrightarrow> emit_particles x y z n radius (P, g) = (P, g)"
  by (simp add: emit_particles_def)

lemma emit_particles_rows:
  assumes "0 < n"
  shows "emit_particles x y z n radius (P, g) =
     (\<lparr>pos = pos P @ map (\<lambda>i. (x + radius * cos (2 * pi * g i) * sin (arccos (2 * g (i + nat n) - 1)),
                                 y + radius * sin (2 * pi * g i) * sin (arccos (2 * g (i + nat n) - 1)),
                                 z + radius * cos (arccos (2 * g (i + nat n) - 1)))) [0..<nat n],
       vel = vel P @ map (\<lambda>i. (cos (2 * pi * g i) * sin (arccos (2 * g (i + nat n) - 1)) * wind_speed,
                                 sin (2 * pi * g i) * sin (arccos (2 * g (i + nat n) - 1)) * wind_speed,
                                 cos (arccos (2 * g (i + nat n) - 1)) * wind_speed)) [0..<nat n],
       age = age P @ replicate (nat n) 0\<rparr>,
      \<lambda>i. g (i + nat n + nat n))"
  using assms
  by (simp add: emit_particles_def uniform_def stack3_def Let_def zip_map_upt
      zip_map_map zip_same_conv_map comp_def add.commute)

lemma emit_particles_parallel:
  assumes "parallel P"
  shows "parallel (fst (emit_particles x y z n radius (P, g)))"
proof (cases "0 < n")
  case True
  with assms show ?thesis by (simp add: emit_particles_rows parallel_def)
next
  case False
  with assms show ?thesis by (simp add: emit_particles_skip)
qed

lemma unit_direction: "norm3 (cos a * sin p, sin a * sin p, cos p) = 1"
proof -
  have ea: "sin a * sin a + cos a * cos a = 1"
    using sin_cos_squared_add [of a] by (simp add: power2_eq_square)
  have ep: "sin p * sin p + cos p * cos p = 1"
    using sin_cos_squared_add [of p] by (simp add: power2_eq_square)
  have "cos a * sin p * (cos a * sin p) + sin a * sin p * (sin a * sin p) + cos p * cos p
      = sin p * sin p * (sin a * sin a + cos a * cos a) + cos p * cos p"
    by algebra
  also have "\<dots> = 1"
    by (simp only: ea ep mult_1_right)
  finally show ?thesis by (simp add: norm3_def)
qed

lemma norm3_vscale: "norm3 (vscale s v) = \<bar>s\<bar> * norm3 v"
proof (cases v)
  case (fields a b c)
  have "s * a * (s * a) + s * b * (s * b) + s * c * (s * c) = s\<^sup>2 * (a * a + b * b + c * c)"
    by (simp add: power2_eq_square algebra_simps)
  then show ?thesis
    by (simp add: fields norm3_def real_sqrt_mult)
qed

section \<open>Lemmas: frames and sequences of calls\<close>

lemma theta_length: "length theta = 120"
  by (simp add: theta_def linspace_def orbit_period_def)

lemma frame_idx_range: "0 \<le> frame mod orbit_period \<and> frame mod orbit_period < 120"
  by (simp add: orbit_period_def)

lemma item_theta:
  "item theta (frame mod orbit_period) = Inr (real (nat (frame mod orbit_period)) * (2 * pi / 120))"
proof -
  have r: "0 \<le> frame mod orbit_period" "frame mod orbit_period < 120"
    using frame_idx_range [of frame] by simp_all
  then have n: "nat (frame mod orbit_period) < 120" by simp
  have "theta ! nat (frame mod orbit_period) = real (nat (frame mod orbit_period)) * (2 * pi / 120)"
    using n by (simp add: theta_def linspace_def orbit_period_def)
  with r show ?thesis
    by (simp add: item_def theta_length)
qed

lemma orbit_positions_angle:
  "orbit_positions frame =
     Inr ((red_radius * cos (real (nat (frame mod orbit_period)) * (2 * pi / 120)),
           red_radius * sin (real (nat (frame mod orbit_period)) * (2 * pi / 120)), 0),
          (blue_radius * cos (real (nat (frame mod orbit_period)) * (2 * pi / 120) + pi),
           blue_radius * sin (real (nat (frame mod orbit_period)) * (2 * pi / 120) + pi), 0))"
  unfolding orbit_positions_def Let_def item_theta by (simp add: center_def)

lemma update_frames_parallel:
  assumes "parallel P"
  shows "\<exists>r b P' g'. update_frames frame (P, g) = Inr (r, b, P', g') \<and> parallel P'"
proof -
  obtain r b where o: "orbit_positions frame = Inr (r, b)"
    using orbit_positions_angle [of frame] by blast
  obtain x y z where r: "r = (x, y, z)" by (cases r)
  obtain P1 g1 where e: "emit_particles x y z particles_frame red_radius (P, g) = (P1, g1)"
    by (cases "emit_particles x y z particles_frame red_radius (P, g)")
  have "parallel P1"
    using emit_particles_parallel [OF assms, of x y z particles_frame red_radius g] e by simp
  then obtain P' where u: "update_particles b P1 = Inr P'" "parallel P'"
    using update_particles_parallel by blast
  have "update_frames frame (P, g) = Inr (r, b, P', g1)"
    by (simp add: update_frames_def o r e u)
  with u show ?thesis by blast
qed

lemma step_parallel:
  assumes "parallel (fst S)"
  shows "\<exists>S'. step c S = Inr S' \<and> parallel (fst S')"
proof (cases S)
  case (Pair P g)
  with assms have p: "parallel P" by simp
  show ?thesis
  proof (cases c)
    case (Emit x y z n radius)
    with p Pair show ?thesis by (simp add: emit_particles_parallel)
  next
    case (Advance b)
    from update_particles_parallel [OF p, of b] obtain P' where
      "update_particles b P = Inr P'" "parallel P'" by blast
    with Advance Pair show ?thesis by simp
  next
    case (Frame frame)
    from update_frames_parallel [OF p, of frame g] obtain r b P' g' where
      "update_frames frame (P, g) = Inr (r, b, P', g')" "parallel P'" by blast
    with Frame Pair show ?thesis by simp
  qed
qed

lemma run_parallel:
  "parallel (fst S) \<Longrightarrow> \<exists>S'. run cs S = Inr S' \<and> parallel (fst S')"
proof (induction cs arbitrary: S)
  case Nil
  then show ?case by simp
next
  case (Cons c cs)
  from step_parallel [OF Cons.prems, of c] obtain S1 where
    s: "step c S = Inr S1" "parallel (fst S1)" by blast
  from Cons.IH [OF s(2)] s(1) show ?case by simp
qed

lemma initial_parallel: "parallel initial_particles"
  by (simp add: parallel_def initial_particles_def)

section \<open>Lemmas: the emitted rows\<close>

lemma vsub_vadd: "vsub (vadd c v) c = v"
  by (cases c; cases v) simp

lemma wind_speed_pos: "0 < wind_speed"
  by (simp add: wind_speed_def red_speed_def red_circ_def red_radius_def orbit_period_def)

lemma emitted_row:
  fixes a p radius x y z :: real
  assumes "0 \<le> radius"
  defines "d \<equiv> (cos a * sin p, sin a * sin p, cos p)"
  shows "(x + radius * cos a * sin p, y + radius * sin a * sin p, z + radius * cos p)
           = vadd (x, y, z) (vscale radius d)"
    and "(cos a * sin p * wind_speed, sin a * sin p * wind_speed, cos p * wind_speed)
           = vscale wind_speed d"
    and "norm3 (vsub (vadd (x, y, z) (vscale radius d)) (x, y, z)) = radius"
    and "norm3 (vscale wind_speed d) = wind_speed"
proof -
  show "(x + radius * cos a * sin p, y + radius * sin a * sin p, z + radius * cos p)
           = vadd (x, y, z) (vscale radius d)"
    by (simp add: d_def mult.assoc)
  show "(cos a * sin p * wind_speed, sin a * sin p * wind_speed, cos p * wind_speed)
           = vscale wind_speed d"
    by (simp add: d_def mult.commute)
  have u: "norm3 d = 1" unfolding d_def by (rule unit_direction)
  show "norm3 (vsub (vadd (x, y, z) (vscale radius d)) (x, y, z)) = radius"
    using assms(1) by (simp add: vsub_vadd norm3_vscale u)
  show "norm3 (vscale wind_speed d) = wind_speed"
    using wind_speed_pos by (simp add: norm3_vscale u)
qed

section \<open>Lemmas: one call of update_particles\<close>

lemma alive_mask_pos:
  "map (\<lambda>d. \<not> d < 1 / 10) (distances_to b P) = map (\<lambda>q. \<not> norm3 (vsub q b) < 1 / 10) (pos P)"
  unfolding distances_to_def map_map comp_def ..

lemma absorbed_count:
  "length (filter (\<lambda>d. d < 1 / 10) (distances_to b P)) =
   length (filter (\<lambda>q. norm3 (vsub q b) < 1 / 10) (pos P))"
  unfolding distances_to_def filter_map length_map comp_def ..

lemma update_particles_masks:
  assumes "parallel P" and "pos P \<noteq> []"
  shows "\<exists>P1 P2 P'.
     move_and_age P = Inr P1 \<and>
     redirect b (distances_to b P1) P1 = Inr P2 \<and>
     update_particles b P = Inr P' \<and>
     length (pos P1) = length (pos P) \<and>
     mask_select (pos P1) (map (\<lambda>d. \<not> d < 1 / 10) (distances_to b P1)) = Inr (pos P') \<and>
     mask_select (vel P2) (map (\<lambda>d. \<not> d < 1 / 10) (distances_to b P1)) = Inr (vel P') \<and>
     mask_select (age P1) (map (\<lambda>d. \<not> d < 1 / 10) (distances_to b P1)) = Inr (age P') \<and>
     pos P' = filter (\<lambda>q. \<not> norm3 (vsub q b) < 1 / 10) (pos P1)"
proof -
  from update_particles_steps [OF assms, of b] obtain P1 P2 P' :: particles where
    s: "move_and_age P = Inr P1" "redirect b (distances_to b P1) P1 = Inr P2"
      "update_particles b P = Inr P'"
    and p1: "pos P1 = map2 vadd (pos P) (vel P)" "age P1 = map (\<lambda>a. a + 1) (age P)"
    and v2: "vel P2 = map2 (\<lambda>q v. if norm3 (vsub q b) < absorption_radius
                 then vscale absorption_speed
                        (vdiv (vsub b q) (if norm3 (vsub b q) = 0 then 1 else norm3 (vsub b q)))
                 else v) (pos P1) (vel P)"
    and r: "pos P' = filter (\<lambda>q. \<not> norm3 (vsub q b) < 1 / 10) (pos P1)"
    "vel P' = map snd (filter (\<lambda>(q, v). \<not> norm3 (vsub q b) < 1 / 10) (zip (pos P1) (vel P2)))"
    "age P' = map snd (filter (\<lambda>(q, a). \<not> norm3 (vsub q b) < 1 / 10) (zip (pos P1) (age P1)))"
    by blast
  from assms(1) have l: "length (vel P) = length (pos P)" "length (age P) = length (pos P)"
    by (simp_all add: parallel_def)
  have l1: "length (pos P1) = length (pos P)" "length (vel P2) = length (pos P1)"
    "length (age P1) = length (pos P1)"
    using l by (simp_all add: v2 p1)
  have m1: "mask_select (pos P1) (map (\<lambda>d. \<not> d < 1 / 10) (distances_to b P1)) = Inr (pos P')"
    unfolding alive_mask_pos r(1) by (rule mask_select_map)
  have m2: "mask_select (vel P2) (map (\<lambda>d. \<not> d < 1 / 10) (distances_to b P1)) = Inr (vel P')"
    unfolding alive_mask_pos r(2) using l1(2) by (rule mask_select_zip)
  have m3: "mask_select (age P1) (map (\<lambda>d. \<not> d < 1 / 10) (distances_to b P1)) = Inr (age P')"
    unfolding alive_mask_pos r(3) using l1(3) by (rule mask_select_zip)
  from s l1(1) m1 m2 m3 r(1) show ?thesis by blast
qed

lemma norm3_axis: "norm3 (a, 0, 0) = \<bar>a\<bar>"
  by (simp add: norm3_def)

lemmas update_particles_unfold =
  update_particles_def move_and_age_def add_rows_def distances_to_def redirect_def
  mask_select_def mask_assign_def absorption_force_def safe_norms_def remove_absorbed_def
  absorption_radius_def absorption_speed_def norm3_axis Let_def

lemma norm3_self: "norm3 (vsub b b) = 0"
  by (cases b) (simp add: norm3_def)

lemma redirect_frame:
  "redirect b ds Q = Inr Q' \<Longrightarrow> pos Q' = pos Q \<and> age Q' = age Q"
  by (auto simp: redirect_def Let_def split: if_splits sum.splits)

lemma vadd_zero: "vadd q (0, 0, 0) = q"
  by (cases q) simp

section \<open>Lemmas: the redirected velocities\<close>

lemma norm3_vsub_commute: "norm3 (vsub a b) = norm3 (vsub b a)"
proof (cases a; cases b)
  fix a1 a2 a3 b1 b2 b3 :: real
  assume "a = (a1, a2, a3)" "b = (b1, b2, b3)"
  moreover have "(a1 - b1) * (a1 - b1) = (b1 - a1) * (b1 - a1)"
    "(a2 - b2) * (a2 - b2) = (b2 - a2) * (b2 - a2)"
    "(a3 - b3) * (a3 - b3) = (b3 - a3) * (b3 - a3)"
    by algebra+
  ultimately show ?thesis by (simp add: norm3_def)
qed

lemma norm3_nonneg: "0 \<le> norm3 v"
  by (cases v) (simp add: norm3_def)

lemma vscale_vdiv: "vscale s (vdiv v n) = vscale (s / n) v"
  by (cases v) simp

lemma absorption_speed_pos: "0 < absorption_speed"
  by (simp add: absorption_speed_def)

lemma norm3_pull:
  assumes "norm3 v \<noteq> 0"
  shows "norm3 (vscale (absorption_speed / norm3 v) v) = absorption_speed"
proof -
  have "0 < norm3 v" using assms norm3_nonneg [of v] by simp
  then show ?thesis
    using absorption_speed_pos by (simp add: norm3_vscale)
qed

lemma norm3_zero: "norm3 (0, 0, 0) = 0"
  by (simp add: norm3_def)

lemma vsub_self: "vsub b b = (0, 0, 0)"
  by (cases b) simp

lemma safe_norms_nonzero: "n \<in> set (safe_norms ds) \<Longrightarrow> n \<noteq> 0"
  by (auto simp: safe_norms_def)

lemma distances_to_nth:
  "i < length (pos P) \<Longrightarrow> distances_to b P ! i = norm3 (vsub (pos P ! i) b)"
  by (simp add: distances_to_def)

lemma update_particles_velocities:
  assumes "parallel P" and "pos P \<noteq> []"
  shows "\<exists>P1 P2 P'.
     move_and_age P = Inr P1 \<and>
     redirect b (distances_to b P1) P1 = Inr P2 \<and>
     update_particles b P = Inr P' \<and>
     length (pos P1) = length (pos P) \<and> length (vel P2) = length (pos P) \<and>
     (\<forall>i < length (pos P). pos P1 ! i = vadd (pos P ! i) (vel P ! i)) \<and>
     (\<forall>i < length (pos P).
        vel P2 ! i =
          (if norm3 (vsub (pos P1 ! i) b) < absorption_radius
           then vscale absorption_speed
                  (vdiv (vsub b (pos P1 ! i))
                     (if norm3 (vsub b (pos P1 ! i)) = 0 then 1 else norm3 (vsub b (pos P1 ! i))))
           else vel P ! i)) \<and>
     mask_select (vel P2) (map (\<lambda>d. \<not> d < 1 / 10) (distances_to b P1)) = Inr (vel P') \<and>
     pos P' = filter (\<lambda>q. \<not> norm3 (vsub q b) < 1 / 10) (pos P1)"
proof -
  from assms(1) have l: "length (vel P) = length (pos P)" "length (age P) = length (pos P)"
    by (simp_all add: parallel_def)
  from update_particles_masks [OF assms, of b] obtain P1 P2 P' :: particles where
    s: "move_and_age P = Inr P1" "redirect b (distances_to b P1) P1 = Inr P2"
      "update_particles b P = Inr P'"
    and m: "mask_select (vel P2) (map (\<lambda>d. \<not> d < 1 / 10) (distances_to b P1)) = Inr (vel P')"
    and r: "pos P' = filter (\<lambda>q. \<not> norm3 (vsub q b) < 1 / 10) (pos P1)"
    by blast
  from s(1) l have p1: "pos P1 = map2 vadd (pos P) (vel P)" "vel P1 = vel P"
    by (auto simp: move_and_age_parallel)
  have l1: "length (pos P1) = length (pos P)" "length (vel P1) = length (pos P1)"
    using l by (simp_all add: p1)
  from s(2) redirect_parallel [OF l1(2), of b]
  have v2: "vel P2 = map2 (\<lambda>q v. if norm3 (vsub q b) < absorption_radius
                 then vscale absorption_speed
                        (vdiv (vsub b q) (if norm3 (vsub b q) = 0 then 1 else norm3 (vsub b q)))
                 else v) (pos P1) (vel P)"
    by (auto simp: p1(2))
  have l2: "length (vel P2) = length (pos P)"
    using l l1 by (simp add: v2)
  have rows1: "\<forall>i < length (pos P). pos P1 ! i = vadd (pos P ! i) (vel P ! i)"
    using l by (simp add: p1)
  have rows2: "\<forall>i < length (pos P).
        vel P2 ! i =
          (if norm3 (vsub (pos P1 ! i) b) < absorption_radius
           then vscale absorption_speed
                  (vdiv (vsub b (pos P1 ! i))
                     (if norm3 (vsub b (pos P1 ! i)) = 0 then 1 else norm3 (vsub b (pos P1 ! i))))
           else vel P ! i)"
    using l l1 by (simp add: v2)
  from s l1(1) l2 rows1 rows2 m r show ?thesis by blast
qed

lemma pulled_row:
  assumes "norm3 (vsub q b) \<noteq> 0"
  shows "vscale absorption_speed
           (vdiv (vsub b q) (if norm3 (vsub b q) = 0 then 1 else norm3 (vsub b q)))
         = vscale (absorption_speed / norm3 (vsub q b)) (vsub b q)"
    and "norm3 (vscale (absorption_speed / norm3 (vsub q b)) (vsub b q)) = absorption_speed"
proof -
  from assms have n: "norm3 (vsub b q) \<noteq> 0" by (simp add: norm3_vsub_commute)
  then show "vscale absorption_speed
           (vdiv (vsub b q) (if norm3 (vsub b q) = 0 then 1 else norm3 (vsub b q)))
         = vscale (absorption_speed / norm3 (vsub q b)) (vsub b q)"
    by (simp add: vscale_vdiv norm3_vsub_commute [of q b])
  from norm3_pull [OF n]
  show "norm3 (vscale (absorption_speed / norm3 (vsub q b)) (vsub b q)) = absorption_speed"
    by (simp add: norm3_vsub_commute [of q b])
qed

lemma orbit_positions_frame0: "orbit_positions 0 = Inr ((12 / 10, 0, 0), (- 3, 0, 0))"
  unfolding orbit_positions_angle by (simp add: orbit_period_def red_radius_def blue_radius_def)

section \<open>The claims\<close>

text \<open>
  C1. Start from the empty store and make any sequence of calls of \<^verbatim>\<open>emit_particles\<close>,
  \<^verbatim>\<open>update_particles\<close> and \<^verbatim>\<open>update_frames\<close>, with any arguments and any random
  draws. After each call of the sequence (after the first \<open>k\<close> calls, for every \<open>k\<close>)
  no call has raised and the arrays \<^verbatim>\<open>'pos'\<close>, \<^verbatim>\<open>'vel'\<close> and \<^verbatim>\<open>'age'\<close> have
  the same length.
\<close>

theorem pool_lengths_agree:
  "\<exists>S'. run (take k cs) (initial_particles, g) = Inr S' \<and>
         length (pos (fst S')) = length (vel (fst S')) \<and>
         length (vel (fst S')) = length (age (fst S'))"
  using run_parallel [of "(initial_particles, g)" "take k cs"] initial_parallel
  by (simp add: parallel_def)

text \<open>
  C2. For every origin \<open>(x, y, z)\<close>, every count \<open>n\<close> and every shell radius
  \<open>radius > 0\<close>: \<^verbatim>\<open>emit_particles\<close> leaves the store (and the random generator)
  unchanged when \<open>n \<le> 0\<close>; when \<open>n > 0\<close> it appends exactly \<open>n\<close> rows to each of the three
  arrays, every new age is 0, every new position is at Euclidean distance \<open>radius\<close> from
  the origin, and every new velocity is \<open>wind_speed\<close> times the unit direction \<open>d\<close> from
  the origin to the new position, so it has length \<open>wind_speed\<close>.
\<close>

theorem emit_particles_shell:
  assumes "0 < radius"
  shows "(n \<le> 0 \<longrightarrow> emit_particles x y z n radius (P, g) = (P, g)) \<and>
     (0 < n \<longrightarrow>
        (\<exists>new_pos new_vel g'.
           emit_particles x y z n radius (P, g) =
             (\<lparr>pos = pos P @ new_pos, vel = vel P @ new_vel,
               age = age P @ replicate (nat n) 0\<rparr>, g') \<and>
           length new_pos = nat n \<and> length new_vel = nat n \<and>
           (\<forall>i < nat n.
              norm3 (vsub (new_pos ! i) (x, y, z)) = radius \<and>
              norm3 (new_vel ! i) = wind_speed \<and>
              (\<exists>d. norm3 d = 1 \<and>
                   new_pos ! i = vadd (x, y, z) (vscale radius d) \<and>
                   new_vel ! i = vscale wind_speed d))))"
proof (intro conjI impI)
  assume "n \<le> 0"
  then show "emit_particles x y z n radius (P, g) = (P, g)"
    by (rule emit_particles_skip)
next
  assume n: "0 < n"
  let ?a = "\<lambda>i. 2 * pi * g i"
  let ?p = "\<lambda>i. arccos (2 * g (i + nat n) - 1)"
  let ?d = "\<lambda>i. (cos (?a i) * sin (?p i), sin (?a i) * sin (?p i), cos (?p i))"
  let ?new_pos = "map (\<lambda>i. vadd (x, y, z) (vscale radius (?d i))) [0..<nat n]"
  let ?new_vel = "map (\<lambda>i. vscale wind_speed (?d i)) [0..<nat n]"
  from assms have r: "0 \<le> radius" by simp
  have e: "emit_particles x y z n radius (P, g) =
      (\<lparr>pos = pos P @ ?new_pos, vel = vel P @ ?new_vel, age = age P @ replicate (nat n) 0\<rparr>,
       \<lambda>i. g (i + nat n + nat n))"
    unfolding emit_particles_rows [OF n] emitted_row(1) [OF r] emitted_row(2) [OF r] ..
  have rows: "\<forall>i < nat n.
      norm3 (vsub (?new_pos ! i) (x, y, z)) = radius \<and>
      norm3 (?new_vel ! i) = wind_speed \<and>
      (\<exists>d. norm3 d = 1 \<and> ?new_pos ! i = vadd (x, y, z) (vscale radius d) \<and>
           ?new_vel ! i = vscale wind_speed d)"
  proof (intro allI impI)
    fix i assume i: "i < nat n"
    have "norm3 (?d i) = 1" by (rule unit_direction)
    then have "\<exists>d. norm3 d = 1 \<and> vadd (x, y, z) (vscale radius (?d i)) = vadd (x, y, z) (vscale radius d) \<and>
           vscale wind_speed (?d i) = vscale wind_speed d"
      by blast
    with i show "norm3 (vsub (?new_pos ! i) (x, y, z)) = radius \<and>
      norm3 (?new_vel ! i) = wind_speed \<and>
      (\<exists>d. norm3 d = 1 \<and> ?new_pos ! i = vadd (x, y, z) (vscale radius d) \<and>
           ?new_vel ! i = vscale wind_speed d)"
      by (simp only: nth_map length_upt minus_nat.diff_0 nth_upt add_0
          emitted_row(3) [OF r] emitted_row(4) [OF r])
  qed
  have "length ?new_pos = nat n" "length ?new_vel = nat n" by simp_all
  with e rows show "\<exists>new_pos new_vel g'.
           emit_particles x y z n radius (P, g) =
             (\<lparr>pos = pos P @ new_pos, vel = vel P @ new_vel,
               age = age P @ replicate (nat n) 0\<rparr>, g') \<and>
           length new_pos = nat n \<and> length new_vel = nat n \<and>
           (\<forall>i < nat n.
              norm3 (vsub (new_pos ! i) (x, y, z)) = radius \<and>
              norm3 (new_vel ! i) = wind_speed \<and>
              (\<exists>d. norm3 d = 1 \<and>
                   new_pos ! i = vadd (x, y, z) (vscale radius d) \<and>
                   new_vel ! i = vscale wind_speed d))"
    by blast
qed

text \<open>One particle emitted on the shell of radius 2 around the origin.\<close>

theorem emit_particles_shell_witness:
  "(0::real) < 2 \<and>
   (\<exists>new_pos new_vel g'.
      emit_particles 0 0 0 1 2 (initial_particles, \<lambda>i. 1 / 2) =
        (\<lparr>pos = new_pos, vel = new_vel, age = [0]\<rparr>, g') \<and>
      length new_pos = 1 \<and> length new_vel = 1 \<and>
      norm3 (vsub (new_pos ! 0) (0, 0, 0)) = 2 \<and>
      norm3 (new_vel ! 0) = wind_speed)"
proof -
  have h: "(0::real) < 2" by simp
  from emit_particles_shell [OF h, of 1 0 0 0 initial_particles "\<lambda>i. 1 / 2"]
  obtain new_pos new_vel g' where
    "emit_particles 0 0 0 1 2 (initial_particles, \<lambda>i. 1 / 2) =
        (\<lparr>pos = pos initial_particles @ new_pos, vel = vel initial_particles @ new_vel,
          age = age initial_particles @ replicate (nat 1) 0\<rparr>, g')"
    "length new_pos = nat 1" "length new_vel = nat 1"
    "\<forall>i < nat 1. norm3 (vsub (new_pos ! i) (0, 0, 0)) = 2 \<and> norm3 (new_vel ! i) = wind_speed \<and>
       (\<exists>d. norm3 d = 1 \<and> new_pos ! i = vadd (0, 0, 0) (vscale 2 d) \<and>
            new_vel ! i = vscale wind_speed d)"
    by auto
  then show ?thesis
    using h by (simp add: initial_particles_def)
qed

text \<open>
  C3, as the code has it. In a call of \<^verbatim>\<open>update_particles\<close> on a store that is not
  empty, every particle whose distance \<open>d\<close> to \<open>blue_pos\<close> after the move is below
  \<^verbatim>\<open>absorption_radius\<close> and not zero gets the velocity
  \<open>(absorption_speed / d) * (blue_pos - position)\<close>: it points from the position to
  \<open>blue_pos\<close>, has length \<^verbatim>\<open>absorption_speed\<close> and does not depend on the old velocity.
  A particle at a distance of at least \<^verbatim>\<open>absorption_radius\<close> keeps its velocity. The
  velocities left in the store are these, for the particles that \<^verbatim>\<open>alive_mask\<close> selects.
\<close>

theorem close_particles_redirected:
  assumes "parallel P" and "pos P \<noteq> []"
  shows "\<exists>P1 P2 P'.
     move_and_age P = Inr P1 \<and>
     redirect b (distances_to b P1) P1 = Inr P2 \<and>
     update_particles b P = Inr P' \<and>
     length (pos P1) = length (pos P) \<and> length (vel P2) = length (pos P) \<and>
     (\<forall>i < length (pos P).
        (distances_to b P1 ! i < absorption_radius \<and> distances_to b P1 ! i \<noteq> 0 \<longrightarrow>
           vel P2 ! i = vscale (absorption_speed / distances_to b P1 ! i) (vsub b (pos P1 ! i)) \<and>
           norm3 (vel P2 ! i) = absorption_speed) \<and>
        (\<not> distances_to b P1 ! i < absorption_radius \<longrightarrow> vel P2 ! i = vel P ! i)) \<and>
     mask_select (vel P2) (map (\<lambda>d. \<not> d < 1 / 10) (distances_to b P1)) = Inr (vel P')"
proof -
  from update_particles_velocities [OF assms, of b] obtain P1 P2 P' :: particles where
    s: "move_and_age P = Inr P1" "redirect b (distances_to b P1) P1 = Inr P2"
      "update_particles b P = Inr P'"
    and l: "length (pos P1) = length (pos P)" "length (vel P2) = length (pos P)"
    and v: "\<forall>i < length (pos P).
        vel P2 ! i =
          (if norm3 (vsub (pos P1 ! i) b) < absorption_radius
           then vscale absorption_speed
                  (vdiv (vsub b (pos P1 ! i))
                     (if norm3 (vsub b (pos P1 ! i)) = 0 then 1 else norm3 (vsub b (pos P1 ! i))))
           else vel P ! i)"
    and m: "mask_select (vel P2) (map (\<lambda>d. \<not> d < 1 / 10) (distances_to b P1)) = Inr (vel P')"
    by blast
  have rows: "\<forall>i < length (pos P).
        (distances_to b P1 ! i < absorption_radius \<and> distances_to b P1 ! i \<noteq> 0 \<longrightarrow>
           vel P2 ! i = vscale (absorption_speed / distances_to b P1 ! i) (vsub b (pos P1 ! i)) \<and>
           norm3 (vel P2 ! i) = absorption_speed) \<and>
        (\<not> distances_to b P1 ! i < absorption_radius \<longrightarrow> vel P2 ! i = vel P ! i)"
  proof (intro allI impI)
    fix i assume i: "i < length (pos P)"
    then have d: "distances_to b P1 ! i = norm3 (vsub (pos P1 ! i) b)"
      using l(1) by (simp add: distances_to_nth)
    from v i have vi: "vel P2 ! i =
          (if norm3 (vsub (pos P1 ! i) b) < absorption_radius
           then vscale absorption_speed
                  (vdiv (vsub b (pos P1 ! i))
                     (if norm3 (vsub b (pos P1 ! i)) = 0 then 1 else norm3 (vsub b (pos P1 ! i))))
           else vel P ! i)"
      by blast
    show "(distances_to b P1 ! i < absorption_radius \<and> distances_to b P1 ! i \<noteq> 0 \<longrightarrow>
           vel P2 ! i = vscale (absorption_speed / distances_to b P1 ! i) (vsub b (pos P1 ! i)) \<and>
           norm3 (vel P2 ! i) = absorption_speed) \<and>
        (\<not> distances_to b P1 ! i < absorption_radius \<longrightarrow> vel P2 ! i = vel P ! i)"
    proof (intro conjI impI)
      assume c: "distances_to b P1 ! i < absorption_radius \<and> distances_to b P1 ! i \<noteq> 0"
      then have nz: "norm3 (vsub (pos P1 ! i) b) \<noteq> 0" and cl: "norm3 (vsub (pos P1 ! i) b) < absorption_radius"
        by (simp_all add: d)
      from vi cl have "vel P2 ! i = vscale absorption_speed
                  (vdiv (vsub b (pos P1 ! i))
                     (if norm3 (vsub b (pos P1 ! i)) = 0 then 1 else norm3 (vsub b (pos P1 ! i))))"
        by simp
      then have e: "vel P2 ! i = vscale (absorption_speed / norm3 (vsub (pos P1 ! i) b)) (vsub b (pos P1 ! i))"
        by (simp only: pulled_row(1) [OF nz])
      then show "vel P2 ! i = vscale (absorption_speed / distances_to b P1 ! i) (vsub b (pos P1 ! i))"
        by (simp only: d)
      from e show "norm3 (vel P2 ! i) = absorption_speed"
        by (simp only: pulled_row(2) [OF nz])
    next
      assume "\<not> distances_to b P1 ! i < absorption_radius"
      then have "\<not> norm3 (vsub (pos P1 ! i) b) < absorption_radius" by (simp add: d)
      with vi show "vel P2 ! i = vel P ! i" by simp
    qed
  qed
  from s l rows m show ?thesis by blast
qed

text \<open>
  A particle that ends at distance 2 is redirected, one at distance 10 is not.
\<close>

theorem close_particles_redirected_witness:
  "parallel \<lparr>pos = [(1, 0, 0), (9, 0, 0)], vel = [(1, 0, 0), (1, 0, 0)], age = [0, 0]\<rparr> \<and>
   pos \<lparr>pos = [(1, 0, 0), (9, 0, 0)], vel = [(1, 0, 0), (1, 0, 0)], age = [0, 0]\<rparr> \<noteq> [] \<and>
   move_and_age \<lparr>pos = [(1, 0, 0), (9, 0, 0)], vel = [(1, 0, 0), (1, 0, 0)], age = [0, 0]\<rparr> =
     Inr \<lparr>pos = [(2, 0, 0), (10, 0, 0)], vel = [(1, 0, 0), (1, 0, 0)], age = [1, 1]\<rparr> \<and>
   distances_to (0, 0, 0) \<lparr>pos = [(2, 0, 0), (10, 0, 0)], vel = [(1, 0, 0), (1, 0, 0)], age = [1, 1]\<rparr> =
     [2, 10] \<and>
   (\<exists>P2. redirect (0, 0, 0) [2, 10]
          \<lparr>pos = [(2, 0, 0), (10, 0, 0)], vel = [(1, 0, 0), (1, 0, 0)], age = [1, 1]\<rparr> = Inr P2 \<and>
      vel P2 ! 0 = (- (1 / 20), 0, 0) \<and> norm3 (vel P2 ! 0) = absorption_speed \<and>
      vel P2 ! 1 = (1, 0, 0))"
proof -
  let ?P = "\<lparr>pos = [(1, 0, 0), (9, 0, 0)], vel = [(1, 0, 0), (1, 0, 0)], age = [0::real, 0]\<rparr>"
  let ?P1 = "\<lparr>pos = [(2, 0, 0), (10, 0, 0)], vel = [(1, 0, 0), (1, 0, 0)], age = [1::real, 1]\<rparr>"
  have h1: "parallel ?P" by (simp add: parallel_def)
  have h2: "pos ?P \<noteq> []" by simp
  have m: "move_and_age ?P = Inr ?P1"
    by (simp add: move_and_age_def add_rows_def)
  have d: "distances_to (0, 0, 0) ?P1 = [2, 10]"
    by (simp add: distances_to_def norm3_axis)
  from close_particles_redirected [OF h1 h2, of "(0, 0, 0)"] obtain P1 P2 :: particles where
    s: "move_and_age ?P = Inr P1" "redirect (0, 0, 0) (distances_to (0, 0, 0) P1) P1 = Inr P2"
    and rows: "\<forall>i < length (pos ?P).
        (distances_to (0, 0, 0) P1 ! i < absorption_radius \<and> distances_to (0, 0, 0) P1 ! i \<noteq> 0 \<longrightarrow>
           vel P2 ! i = vscale (absorption_speed / distances_to (0, 0, 0) P1 ! i)
                          (vsub (0, 0, 0) (pos P1 ! i)) \<and>
           norm3 (vel P2 ! i) = absorption_speed) \<and>
        (\<not> distances_to (0, 0, 0) P1 ! i < absorption_radius \<longrightarrow> vel P2 ! i = vel ?P ! i)"
    by blast
  from s(1) m have e: "P1 = ?P1" by simp
  from rows [rule_format, of 0] have r0: "vel P2 ! 0 = (- (1 / 20), 0, 0) \<and> norm3 (vel P2 ! 0) = absorption_speed"
    unfolding e d by (simp add: absorption_radius_def absorption_speed_def norm3_axis)
  from rows [rule_format, of 1] have r1: "vel P2 ! 1 = (1, 0, 0)"
    unfolding e d by (simp add: absorption_radius_def)
  from s(2) have "redirect (0, 0, 0) [2, 10] ?P1 = Inr P2"
    unfolding e d .
  with h1 h2 m d r0 r1 show ?thesis by blast
qed

text \<open>
  C3 as stated fails for a particle that the move puts exactly on \<open>blue_pos\<close>: its distance
  0 is below \<^verbatim>\<open>absorption_radius\<close>, and its velocity is overwritten with the zero
  vector, whose length is not \<^verbatim>\<open>absorption_speed\<close>.
\<close>

theorem close_particle_on_absorber_counterexample:
  "move_and_age \<lparr>pos = [(1, 0, 0)], vel = [(- 1, 0, 0)], age = [0]\<rparr> =
     Inr \<lparr>pos = [(0, 0, 0)], vel = [(- 1, 0, 0)], age = [1]\<rparr> \<and>
   distances_to (0, 0, 0) \<lparr>pos = [(0, 0, 0)], vel = [(- 1, 0, 0)], age = [1]\<rparr> = [0] \<and>
   (0::real) < absorption_radius \<and>
   redirect (0, 0, 0) [0] \<lparr>pos = [(0, 0, 0)], vel = [(- 1, 0, 0)], age = [1]\<rparr> =
     Inr \<lparr>pos = [(0, 0, 0)], vel = [(0, 0, 0)], age = [1]\<rparr> \<and>
   norm3 (0, 0, 0) \<noteq> absorption_speed"
  by (simp add: update_particles_unfold)

text \<open>
  C4, as the code has it. When the move puts a particle exactly on \<open>blue_pos\<close>, the zero
  length of its direction vector is replaced by 1 (no length that \<^verbatim>\<open>safe_norms\<close> returns
  is zero, so nothing is divided by zero) and the call returns. The direction vector
  itself stays the zero vector: the velocity of the particle is overwritten with the zero
  vector, of length 0, and the particle is dropped by the same call.
\<close>

theorem coinciding_particle_guarded:
  assumes "parallel P" and "i < length (pos P)" and "vadd (pos P ! i) (vel P ! i) = b"
  shows "(\<forall>ds. \<forall>n \<in> set (safe_norms ds). n \<noteq> 0) \<and>
     safe_norms [vsub b b] = [1] \<and>
     absorption_force b [b] = [(0, 0, 0)] \<and>
     (\<exists>P1 P2 P'.
        move_and_age P = Inr P1 \<and>
        redirect b (distances_to b P1) P1 = Inr P2 \<and>
        update_particles b P = Inr P' \<and>
        pos P1 ! i = b \<and> distances_to b P1 ! i = 0 \<and>
        vel P2 ! i = (0, 0, 0) \<and> norm3 (vel P2 ! i) = 0 \<and>
        b \<notin> set (pos P'))"
proof -
  from assms(2) have ne: "pos P \<noteq> []" by auto
  from update_particles_velocities [OF assms(1) ne, of b] obtain P1 P2 P' :: particles where
    s: "move_and_age P = Inr P1" "redirect b (distances_to b P1) P1 = Inr P2"
      "update_particles b P = Inr P'"
    and l: "length (pos P1) = length (pos P)"
    and p: "\<forall>i < length (pos P). pos P1 ! i = vadd (pos P ! i) (vel P ! i)"
    and v: "\<forall>i < length (pos P).
        vel P2 ! i =
          (if norm3 (vsub (pos P1 ! i) b) < absorption_radius
           then vscale absorption_speed
                  (vdiv (vsub b (pos P1 ! i))
                     (if norm3 (vsub b (pos P1 ! i)) = 0 then 1 else norm3 (vsub b (pos P1 ! i))))
           else vel P ! i)"
    and r: "pos P' = filter (\<lambda>q. \<not> norm3 (vsub q b) < 1 / 10) (pos P1)"
    by blast
  from p assms(2,3) have pi: "pos P1 ! i = b" by simp
  have di: "distances_to b P1 ! i = 0"
    using assms(2) l by (simp add: distances_to_nth pi norm3_self)
  from v assms(2) have vi: "vel P2 ! i = (0, 0, 0)"
    by (simp add: pi norm3_self norm3_zero vsub_self absorption_radius_def)
  have nb: "b \<notin> set (pos P')"
    unfolding r by (simp add: norm3_self)
  have g: "\<forall>ds. \<forall>n \<in> set (safe_norms ds). n \<noteq> 0"
    using safe_norms_nonzero by blast
  have sn0: "safe_norms [(0, 0, 0)] = [1]"
    by (simp add: safe_norms_def norm3_zero)
  then have sn: "safe_norms [vsub b b] = [1]"
    by (simp only: vsub_self)
  have af: "absorption_force b [b] = [(0, 0, 0)]"
    by (simp add: absorption_force_def sn0 vsub_self Let_def)
  from s pi di vi nb have "\<exists>P1 P2 P'.
        move_and_age P = Inr P1 \<and>
        redirect b (distances_to b P1) P1 = Inr P2 \<and>
        update_particles b P = Inr P' \<and>
        pos P1 ! i = b \<and> distances_to b P1 ! i = 0 \<and>
        vel P2 ! i = (0, 0, 0) \<and> norm3 (vel P2 ! i) = 0 \<and>
        b \<notin> set (pos P')"
    by (auto simp: norm3_zero)
  with g sn af show ?thesis by blast
qed

text \<open>
  The first of two particles moves onto the blue object at (1, 2, 3).
\<close>

theorem coinciding_particle_guarded_witness:
  "parallel \<lparr>pos = [(0, 2, 3), (4, 0, 0)], vel = [(1, 0, 0), (0, 0, 0)], age = [0, 0]\<rparr> \<and>
   (0::nat) < length (pos \<lparr>pos = [(0, 2, 3), (4, 0, 0)], vel = [(1, 0, 0), (0, 0, 0)], age = [0, 0]\<rparr>) \<and>
   vadd (0, 2, 3) (1, 0, 0) = (1, 2, 3) \<and>
   safe_norms [vsub (1, 2, 3) (1, 2, 3)] = [1] \<and>
   absorption_force (1, 2, 3) [(1, 2, 3)] = [(0, 0, 0)] \<and>
   (\<exists>P'. update_particles (1, 2, 3)
       \<lparr>pos = [(0, 2, 3), (4, 0, 0)], vel = [(1, 0, 0), (0, 0, 0)], age = [0, 0]\<rparr> = Inr P' \<and>
       (1, 2, 3) \<notin> set (pos P'))"
proof -
  let ?P = "\<lparr>pos = [(0, 2, 3), (4, 0, 0)], vel = [(1, 0, 0), (0, 0, 0)], age = [0::real, 0]\<rparr>"
  have h1: "parallel ?P" by (simp add: parallel_def)
  have h2: "0 < length (pos ?P)" by simp
  have h3: "vadd (pos ?P ! 0) (vel ?P ! 0) = (1, 2, 3)" by simp
  from coinciding_particle_guarded [OF h1 h2 h3] h1 h2 show ?thesis by auto
qed

text \<open>
  C4 as stated fails: for a particle on \<open>blue_pos\<close> the velocity written by the
  redirection has length 0, not \<^verbatim>\<open>absorption_speed\<close>.
\<close>

theorem zero_direction_counterexample:
  "distances_to (1, 2, 3) \<lparr>pos = [(1, 2, 3)], vel = [(1, 1, 1)], age = [7]\<rparr> = [0] \<and>
   redirect (1, 2, 3) [0] \<lparr>pos = [(1, 2, 3)], vel = [(1, 1, 1)], age = [7]\<rparr> =
     Inr \<lparr>pos = [(1, 2, 3)], vel = [(0, 0, 0)], age = [7]\<rparr> \<and>
   norm3 (0, 0, 0) = 0 \<and> norm3 (0, 0, 0) \<noteq> absorption_speed"
  by (simp add: update_particles_unfold norm3_def)

text \<open>
  C5. One call of \<^verbatim>\<open>update_particles\<close> on a store that is not empty returns, and the
  store it leaves is what the mask \<^verbatim>\<open>alive_mask\<close> selects: positions and ages from the
  arrays after the move, velocities from the array after the redirection, all three by the
  same mask, so the entries of a particle are dropped together. The number of particles
  shrinks by exactly the number of distances below 0.1; no position at a distance below
  0.1 remains, and every position at a distance of at least 0.1 remains.
\<close>

theorem absorbed_particles_removed:
  assumes "parallel P" and "pos P \<noteq> []"
  shows "\<exists>P1 P2 P'.
     move_and_age P = Inr P1 \<and>
     redirect b (distances_to b P1) P1 = Inr P2 \<and>
     update_particles b P = Inr P' \<and>
     mask_select (pos P1) (map (\<lambda>d. \<not> d < 1 / 10) (distances_to b P1)) = Inr (pos P') \<and>
     mask_select (vel P2) (map (\<lambda>d. \<not> d < 1 / 10) (distances_to b P1)) = Inr (vel P') \<and>
     mask_select (age P1) (map (\<lambda>d. \<not> d < 1 / 10) (distances_to b P1)) = Inr (age P') \<and>
     length (pos P') + length (filter (\<lambda>d. d < 1 / 10) (distances_to b P1)) = length (pos P) \<and>
     length (vel P') = length (pos P') \<and> length (age P') = length (pos P') \<and>
     (\<forall>q \<in> set (pos P1). norm3 (vsub q b) < 1 / 10 \<longrightarrow> q \<notin> set (pos P')) \<and>
     (\<forall>q \<in> set (pos P1). \<not> norm3 (vsub q b) < 1 / 10 \<longrightarrow> q \<in> set (pos P'))"
proof -
  from update_particles_masks [OF assms, of b] obtain P1 P2 P' :: particles where
    s: "move_and_age P = Inr P1" "redirect b (distances_to b P1) P1 = Inr P2"
      "update_particles b P = Inr P'"
    and l: "length (pos P1) = length (pos P)"
    and m: "mask_select (pos P1) (map (\<lambda>d. \<not> d < 1 / 10) (distances_to b P1)) = Inr (pos P')"
      "mask_select (vel P2) (map (\<lambda>d. \<not> d < 1 / 10) (distances_to b P1)) = Inr (vel P')"
      "mask_select (age P1) (map (\<lambda>d. \<not> d < 1 / 10) (distances_to b P1)) = Inr (age P')"
    and r: "pos P' = filter (\<lambda>q. \<not> norm3 (vsub q b) < 1 / 10) (pos P1)"
    by blast
  from update_particles_parallel [OF assms(1), of b] s(3) have "parallel P'" by simp
  then have par: "length (vel P') = length (pos P')" "length (age P') = length (pos P')"
    by (simp_all add: parallel_def)
  have "length (filter (\<lambda>q. \<not> norm3 (vsub q b) < 1 / 10) (pos P1)) +
        length (filter (\<lambda>q. norm3 (vsub q b) < 1 / 10) (pos P1)) = length (pos P1)"
    using sum_length_filter_compl [of "\<lambda>q. norm3 (vsub q b) < 1 / 10" "pos P1"] by simp
  then have c: "length (pos P') + length (filter (\<lambda>d. d < 1 / 10) (distances_to b P1)) = length (pos P)"
    unfolding absorbed_count r l .
  have g: "\<forall>q \<in> set (pos P1). norm3 (vsub q b) < 1 / 10 \<longrightarrow> q \<notin> set (pos P')"
    unfolding r by simp
  have k: "\<forall>q \<in> set (pos P1). \<not> norm3 (vsub q b) < 1 / 10 \<longrightarrow> q \<in> set (pos P')"
    unfolding r by simp
  from s m c par g k show ?thesis by blast
qed

text \<open>Two particles at rest, the first one on the blue object.\<close>

theorem absorbed_particles_removed_witness:
  "parallel \<lparr>pos = [(0, 0, 0), (3, 0, 0)], vel = [(0, 0, 0), (0, 0, 0)], age = [0, 0]\<rparr> \<and>
   pos \<lparr>pos = [(0, 0, 0), (3, 0, 0)], vel = [(0, 0, 0), (0, 0, 0)], age = [0, 0]\<rparr> \<noteq> [] \<and>
   (\<exists>P1 P'.
      move_and_age \<lparr>pos = [(0, 0, 0), (3, 0, 0)], vel = [(0, 0, 0), (0, 0, 0)], age = [0, 0]\<rparr> = Inr P1 \<and>
      update_particles (0, 0, 0)
        \<lparr>pos = [(0, 0, 0), (3, 0, 0)], vel = [(0, 0, 0), (0, 0, 0)], age = [0, 0]\<rparr> = Inr P' \<and>
      length (pos P') + length (filter (\<lambda>d. d < 1 / 10) (distances_to (0, 0, 0) P1)) = 2 \<and>
      length (vel P') = length (pos P') \<and> length (age P') = length (pos P'))"
proof -
  let ?P = "\<lparr>pos = [(0, 0, 0), (3, 0, 0)], vel = [(0, 0, 0), (0, 0, 0)], age = [0::real, 0]\<rparr>"
  have h1: "parallel ?P" by (simp add: parallel_def)
  have h2: "pos ?P \<noteq> []" by simp
  from absorbed_particles_removed [OF h1 h2, of "(0, 0, 0)"] obtain P1 P' :: particles where
    "move_and_age ?P = Inr P1" "update_particles (0, 0, 0) ?P = Inr P'"
    "length (pos P') + length (filter (\<lambda>d. d < 1 / 10) (distances_to (0, 0, 0) P1)) = length (pos ?P)"
    "length (vel P') = length (pos P')" "length (age P') = length (pos P')"
    by blast
  with h1 h2 show ?thesis by auto
qed

text \<open>
  C6. In \<^verbatim>\<open>update_particles\<close> the array \<^verbatim>\<open>distances\<close> is computed once, from the
  positions after the move, and both masks are taken from it. The redirection changes
  velocities only: positions and ages are the same before and after it, for any store and
  any distances. So the distances computed again after the redirection are the same
  array, and dropping the absorbed particles by either gives the same store, the result
  of the call.
\<close>

theorem one_distance_snapshot:
  assumes "parallel P" and "pos P \<noteq> []"
  shows "(\<exists>P1 P2 P'.
       move_and_age P = Inr P1 \<and>
       redirect b (distances_to b P1) P1 = Inr P2 \<and>
       pos P2 = pos P1 \<and> age P2 = age P1 \<and>
       distances_to b P2 = distances_to b P1 \<and>
       remove_absorbed (distances_to b P2) P2 = Inr P' \<and>
       remove_absorbed (distances_to b P1) P2 = Inr P' \<and>
       update_particles b P = Inr P') \<and>
     (\<forall>ds Q Q'. redirect b ds Q = Inr Q' \<longrightarrow> pos Q' = pos Q \<and> age Q' = age Q)"
proof -
  from update_particles_steps [OF assms, of b] obtain P1 P2 P' :: particles where
    s: "move_and_age P = Inr P1" "redirect b (distances_to b P1) P1 = Inr P2"
      "remove_absorbed (distances_to b P1) P2 = Inr P'" "update_particles b P = Inr P'"
    and p2: "pos P2 = pos P1" "age P2 = age P1"
    by blast
  have d: "distances_to b P2 = distances_to b P1"
    using p2(1) by (rule distances_to_pos)
  from s p2 d have "\<exists>P1 P2 P'.
       move_and_age P = Inr P1 \<and>
       redirect b (distances_to b P1) P1 = Inr P2 \<and>
       pos P2 = pos P1 \<and> age P2 = age P1 \<and>
       distances_to b P2 = distances_to b P1 \<and>
       remove_absorbed (distances_to b P2) P2 = Inr P' \<and>
       remove_absorbed (distances_to b P1) P2 = Inr P' \<and>
       update_particles b P = Inr P'"
    by auto
  moreover have "\<forall>ds Q Q'. redirect b ds Q = Inr Q' \<longrightarrow> pos Q' = pos Q \<and> age Q' = age Q"
    using redirect_frame by blast
  ultimately show ?thesis by blast
qed

text \<open>
  One particle that is redirected and stays in the store.
\<close>

theorem one_distance_snapshot_witness:
  "parallel \<lparr>pos = [(1, 0, 0)], vel = [(1, 0, 0)], age = [0]\<rparr> \<and>
   pos \<lparr>pos = [(1, 0, 0)], vel = [(1, 0, 0)], age = [0]\<rparr> \<noteq> [] \<and>
   move_and_age \<lparr>pos = [(1, 0, 0)], vel = [(1, 0, 0)], age = [0]\<rparr> =
     Inr \<lparr>pos = [(2, 0, 0)], vel = [(1, 0, 0)], age = [1]\<rparr> \<and>
   (\<exists>P2 P'.
      redirect (0, 0, 0) (distances_to (0, 0, 0) \<lparr>pos = [(2, 0, 0)], vel = [(1, 0, 0)], age = [1]\<rparr>)
        \<lparr>pos = [(2, 0, 0)], vel = [(1, 0, 0)], age = [1]\<rparr> = Inr P2 \<and>
      pos P2 = [(2, 0, 0)] \<and> age P2 = [1] \<and>
      distances_to (0, 0, 0) P2 = distances_to (0, 0, 0) \<lparr>pos = [(2, 0, 0)], vel = [(1, 0, 0)], age = [1]\<rparr> \<and>
      remove_absorbed (distances_to (0, 0, 0) P2) P2 = Inr P' \<and>
      update_particles (0, 0, 0) \<lparr>pos = [(1, 0, 0)], vel = [(1, 0, 0)], age = [0]\<rparr> = Inr P')"
proof -
  let ?P = "\<lparr>pos = [(1, 0, 0)], vel = [(1, 0, 0)], age = [0::real]\<rparr>"
  let ?P1 = "\<lparr>pos = [(2, 0, 0)], vel = [(1, 0, 0)], age = [1::real]\<rparr>"
  have h1: "parallel ?P" by (simp add: parallel_def)
  have h2: "pos ?P \<noteq> []" by simp
  have m: "move_and_age ?P = Inr ?P1"
    by (simp add: move_and_age_def add_rows_def)
  from one_distance_snapshot [OF h1 h2, of "(0, 0, 0)"] obtain P1 P2 P' :: particles where
    s: "move_and_age ?P = Inr P1" "redirect (0, 0, 0) (distances_to (0, 0, 0) P1) P1 = Inr P2"
      "pos P2 = pos P1" "age P2 = age P1"
      "distances_to (0, 0, 0) P2 = distances_to (0, 0, 0) P1"
      "remove_absorbed (distances_to (0, 0, 0) P2) P2 = Inr P'"
      "update_particles (0, 0, 0) ?P = Inr P'"
    by blast
  from s(1) m have "P1 = ?P1" by simp
  with s h1 h2 m show ?thesis by simp
qed

text \<open>
  C7. In a call of \<^verbatim>\<open>update_particles\<close> on a store that is not empty, the move adds to
  the position of each particle its velocity and adds exactly 1 to its age; a particle
  whose velocity is zero keeps its position. The store left by the call holds these
  positions and ages for the particles that \<^verbatim>\<open>alive_mask\<close> selects.
\<close>

theorem move_and_age_each_particle:
  assumes "parallel P" and "pos P \<noteq> []"
  shows "\<exists>P1 P'.
     move_and_age P = Inr P1 \<and> update_particles b P = Inr P' \<and>
     length (pos P1) = length (pos P) \<and> length (age P1) = length (pos P) \<and>
     (\<forall>i < length (pos P).
        pos P1 ! i = vadd (pos P ! i) (vel P ! i) \<and>
        age P1 ! i = age P ! i + 1 \<and>
        (vel P ! i = (0, 0, 0) \<longrightarrow> pos P1 ! i = pos P ! i)) \<and>
     mask_select (pos P1) (map (\<lambda>d. \<not> d < 1 / 10) (distances_to b P1)) = Inr (pos P') \<and>
     mask_select (age P1) (map (\<lambda>d. \<not> d < 1 / 10) (distances_to b P1)) = Inr (age P')"
proof -
  from assms(1) have l: "length (vel P) = length (pos P)" "length (age P) = length (pos P)"
    by (simp_all add: parallel_def)
  from update_particles_masks [OF assms, of b] obtain P1 P' :: particles where
    s: "move_and_age P = Inr P1" "update_particles b P = Inr P'"
    and m: "mask_select (pos P1) (map (\<lambda>d. \<not> d < 1 / 10) (distances_to b P1)) = Inr (pos P')"
      "mask_select (age P1) (map (\<lambda>d. \<not> d < 1 / 10) (distances_to b P1)) = Inr (age P')"
    by blast
  from s(1) l have p1: "pos P1 = map2 vadd (pos P) (vel P)" "age P1 = map (\<lambda>a. a + 1) (age P)"
    by (auto simp: move_and_age_parallel)
  have len: "length (pos P1) = length (pos P)" "length (age P1) = length (pos P)"
    using l by (simp_all add: p1)
  have rows: "\<forall>i < length (pos P).
        pos P1 ! i = vadd (pos P ! i) (vel P ! i) \<and>
        age P1 ! i = age P ! i + 1 \<and>
        (vel P ! i = (0, 0, 0) \<longrightarrow> pos P1 ! i = pos P ! i)"
    using l by (simp add: p1 vadd_zero)
  from s len rows m show ?thesis by blast
qed

text \<open>
  A moving particle and a particle at rest.
\<close>

theorem move_and_age_each_particle_witness:
  "parallel \<lparr>pos = [(2, 0, 0), (5, 0, 0)], vel = [(1, 0, 0), (0, 0, 0)], age = [3, 4]\<rparr> \<and>
   pos \<lparr>pos = [(2, 0, 0), (5, 0, 0)], vel = [(1, 0, 0), (0, 0, 0)], age = [3, 4]\<rparr> \<noteq> [] \<and>
   (\<exists>P1. move_and_age \<lparr>pos = [(2, 0, 0), (5, 0, 0)], vel = [(1, 0, 0), (0, 0, 0)], age = [3, 4]\<rparr> = Inr P1 \<and>
      pos P1 ! 0 = (3, 0, 0) \<and> age P1 ! 0 = 4 \<and> pos P1 ! 1 = (5, 0, 0) \<and> age P1 ! 1 = 5)"
proof -
  let ?P = "\<lparr>pos = [(2, 0, 0), (5, 0, 0)], vel = [(1, 0, 0), (0, 0, 0)], age = [3::real, 4]\<rparr>"
  have h1: "parallel ?P" by (simp add: parallel_def)
  have h2: "pos ?P \<noteq> []" by simp
  from move_and_age_each_particle [OF h1 h2, of "(0, 0, 0)"] obtain P1 :: particles where
    s: "move_and_age ?P = Inr P1"
    and rows: "\<forall>i < length (pos ?P).
        pos P1 ! i = vadd (pos ?P ! i) (vel ?P ! i) \<and>
        age P1 ! i = age ?P ! i + 1 \<and>
        (vel ?P ! i = (0, 0, 0) \<longrightarrow> pos P1 ! i = pos ?P ! i)"
    by blast
  from rows [rule_format, of 0] have "pos P1 ! 0 = (3, 0, 0) \<and> age P1 ! 0 = 4" by simp
  moreover from rows [rule_format, of 1] have "pos P1 ! 1 = (5, 0, 0) \<and> age P1 ! 1 = 5"
    by simp
  ultimately show ?thesis using h1 s by simp
qed

text \<open>
  C8. For every frame, the lookup \<^verbatim>\<open>theta[frame_idx]\<close> with
  \<open>frame_idx = frame mod orbit_period\<close> is in range and gives an angle \<open>th\<close>; the red
  position is \<open>center + red_radius * (cos th, sin th, 0)\<close> and the blue position is
  \<open>center + blue_radius * (cos (th + pi), sin (th + pi), 0)\<close>. The centre is the origin,
  the radii are 1.2 and 3, the table has 120 angles, and frame 0 gives the red position
  \<open>(1.2, 0, 0)\<close> and the blue position \<open>(-3, 0, 0)\<close>.
\<close>

theorem orbit_positions_formula:
  "(\<exists>th. item theta (frame mod orbit_period) = Inr th \<and>
      orbit_positions frame =
        Inr (vadd center (vscale red_radius (cos th, sin th, 0)),
             vadd center (vscale blue_radius (cos (th + pi), sin (th + pi), 0)))) \<and>
   center = (0, 0, 0) \<and> red_radius = 12 / 10 \<and> blue_radius = 3 \<and>
   orbit_period = 120 \<and> length theta = 120 \<and>
   orbit_positions 0 = Inr ((12 / 10, 0, 0), (- 3, 0, 0))"
proof -
  let ?th = "real (nat (frame mod orbit_period)) * (2 * pi / 120)"
  have "orbit_positions frame =
        Inr (vadd center (vscale red_radius (cos ?th, sin ?th, 0)),
             vadd center (vscale blue_radius (cos (?th + pi), sin (?th + pi), 0)))"
    unfolding orbit_positions_angle by (simp add: center_def)
  with item_theta [of frame] have "\<exists>th. item theta (frame mod orbit_period) = Inr th \<and>
      orbit_positions frame =
        Inr (vadd center (vscale red_radius (cos th, sin th, 0)),
             vadd center (vscale blue_radius (cos (th + pi), sin (th + pi), 0)))"
    by blast
  then show ?thesis
    using orbit_positions_frame0 theta_length
    by (simp add: center_def red_radius_def blue_radius_def orbit_period_def)
qed

text \<open>
  C9. No operation raises. \<^verbatim>\<open>emit_particles\<close> has no raising branch at all, and with
  \<open>n \<le> 0\<close> it returns the state as it is; \<^verbatim>\<open>update_particles\<close> on an empty store
  returns the store as it is; no length that the guard of line 100 lets through is zero,
  so the division of line 101 never divides by zero; the table lookup of
  \<^verbatim>\<open>update_frames\<close> is always in range; on a store whose three arrays have one length
  \<^verbatim>\<open>update_particles\<close> and \<^verbatim>\<open>update_frames\<close> return; and from the empty store every
  sequence of calls returns.
\<close>

theorem no_operation_raises:
  "(n \<le> 0 \<longrightarrow> emit_particles x y z n radius S = S) \<and>
   (pos P = [] \<longrightarrow> update_particles b P = Inr P) \<and>
   (\<forall>d \<in> set (safe_norms ds). d \<noteq> 0) \<and>
   (\<exists>r bl. orbit_positions frame = Inr (r, bl)) \<and>
   (parallel Q \<longrightarrow>
      (\<exists>Q'. update_particles b Q = Inr Q') \<and>
      (\<exists>r bl Q' g'. update_frames frame (Q, g) = Inr (r, bl, Q', g'))) \<and>
   (\<exists>S'. run cs (initial_particles, g) = Inr S')"
proof (intro conjI impI)
  assume "n \<le> 0"
  then show "emit_particles x y z n radius S = S"
    by (cases S) (simp add: emit_particles_skip)
next
  assume "pos P = []"
  then show "update_particles b P = Inr P" by (rule update_particles_empty)
next
  show "\<forall>d \<in> set (safe_norms ds). d \<noteq> 0"
    using safe_norms_nonzero by blast
next
  show "\<exists>r bl. orbit_positions frame = Inr (r, bl)"
    using orbit_positions_angle [of frame] by blast
next
  assume "parallel Q"
  then show "\<exists>Q'. update_particles b Q = Inr Q'"
    using update_particles_parallel by blast
next
  assume "parallel Q"
  then show "\<exists>r bl Q' g'. update_frames frame (Q, g) = Inr (r, bl, Q', g')"
    using update_frames_parallel by blast
next
  show "\<exists>S'. run cs (initial_particles, g) = Inr S'"
    using run_parallel [of "(initial_particles, g)" cs] initial_parallel by auto
qed

text \<open>
  An emission of no particles, an update of the empty store, and an update and a frame on
  a store with one particle that sits on the blue object.
\<close>

theorem no_operation_raises_witness:
  "(0::int) \<le> 0 \<and>
   emit_particles 1 2 3 0 1 (initial_particles, \<lambda>i. 0) = (initial_particles, \<lambda>i. 0) \<and>
   pos initial_particles = [] \<and>
   update_particles (0, 0, 0) initial_particles = Inr initial_particles \<and>
   1 \<in> set (safe_norms [(0, 0, 0)]) \<and> (1::real) \<noteq> 0 \<and>
   parallel \<lparr>pos = [(0, 0, 0)], vel = [(0, 0, 0)], age = [0]\<rparr> \<and>
   (\<exists>Q'. update_particles (0, 0, 0) \<lparr>pos = [(0, 0, 0)], vel = [(0, 0, 0)], age = [0]\<rparr> = Inr Q') \<and>
   (\<exists>r bl Q' g'. update_frames 0 (\<lparr>pos = [(0, 0, 0)], vel = [(0, 0, 0)], age = [0]\<rparr>, \<lambda>i. 0) =
        Inr (r, bl, Q', g'))"
proof -
  let ?Q = "\<lparr>pos = [(0, 0, 0)], vel = [(0, 0, 0)], age = [0::real]\<rparr>"
  have h1: "(0::int) \<le> 0" by simp
  have h2: "pos initial_particles = []" by (simp add: initial_particles_def)
  have h3: "1 \<in> set (safe_norms [(0, 0, 0)])" by (simp add: safe_norms_def norm3_zero)
  have h4: "parallel ?Q" by (simp add: parallel_def)
  from no_operation_raises [of 0 1 2 3 1 "(initial_particles, \<lambda>i. 0)" initial_particles "(0, 0, 0)"
      "[(0, 0, 0)]" 0 ?Q "\<lambda>i. 0" "[]"] h1 h2 h3 h4
  show ?thesis by auto
qed

text \<open>
  C10. From a store whose three arrays have one length, \<^verbatim>\<open>update_particles\<close> returns,
  and every position it leaves in the store is at a distance of at least 0.1 from
  \<open>blue_pos\<close>. The positions left are positions after the move, so the distance is the one
  computed after integration; a particle that sits exactly on \<open>blue_pos\<close> after the move
  is never left in the store.
\<close>

theorem survivors_outside_removal_radius:
  assumes "parallel P"
  shows "\<exists>P'. update_particles b P = Inr P' \<and>
     (\<forall>q \<in> set (pos P'). 1 / 10 \<le> norm3 (vsub q b)) \<and> b \<notin> set (pos P') \<and>
     (pos P = [] \<or> (\<exists>P1. move_and_age P = Inr P1 \<and> set (pos P') \<subseteq> set (pos P1)))"
proof (cases "pos P = []")
  case True
  then show ?thesis by (simp add: update_particles_empty)
next
  case False
  from update_particles_masks [OF assms False, of b] obtain P1 P' :: particles where
    s: "move_and_age P = Inr P1" "update_particles b P = Inr P'"
    and r: "pos P' = filter (\<lambda>q. \<not> norm3 (vsub q b) < 1 / 10) (pos P1)"
    by blast
  have far: "\<forall>q \<in> set (pos P'). 1 / 10 \<le> norm3 (vsub q b)"
    unfolding r by auto
  have "\<not> 1 / 10 \<le> norm3 (vsub b b)"
    by (simp add: norm3_self)
  with far have nb: "b \<notin> set (pos P')" by blast
  have sub: "set (pos P') \<subseteq> set (pos P1)"
    unfolding r by auto
  from s far nb sub show ?thesis by blast
qed

text \<open>
  Two particles; the first one moves onto the blue object and is dropped.
\<close>

theorem survivors_outside_removal_radius_witness:
  "parallel \<lparr>pos = [(2, 0, 0), (5, 0, 0)], vel = [(- 2, 0, 0), (0, 0, 0)], age = [3, 4]\<rparr> \<and>
   update_particles (0, 0, 0)
     \<lparr>pos = [(2, 0, 0), (5, 0, 0)], vel = [(- 2, 0, 0), (0, 0, 0)], age = [3, 4]\<rparr> =
     Inr \<lparr>pos = [(5, 0, 0)], vel = [(0, 0, 0)], age = [5]\<rparr> \<and>
   1 / 10 \<le> norm3 (vsub (5, 0, 0) (0, 0, 0)) \<and>
   (0, 0, 0) \<notin> set (pos \<lparr>pos = [(5, 0, 0)], vel = [(0, 0, 0)], age = [5::real]\<rparr>)"
proof -
  let ?P = "\<lparr>pos = [(2, 0, 0), (5, 0, 0)], vel = [(- 2, 0, 0), (0, 0, 0)], age = [3::real, 4]\<rparr>"
  let ?P' = "\<lparr>pos = [(5, 0, 0)], vel = [(0, 0, 0)], age = [5::real]\<rparr>"
  have h: "parallel ?P" by (simp add: parallel_def)
  have u: "update_particles (0, 0, 0) ?P = Inr ?P'"
    by (simp add: update_particles_unfold)
  from survivors_outside_removal_radius [OF h, of "(0, 0, 0)"] u
  have "(\<forall>q \<in> set (pos ?P'). 1 / 10 \<le> norm3 (vsub q (0, 0, 0))) \<and> (0, 0, 0) \<notin> set (pos ?P')"
    by simp
  with h u show ?thesis by simp
qed

end
